theory Spec2Isabelle
  imports Main "HOL-Library.Multiset"
begin

section \<open>Data model\<close>

text \<open>
  A queued song is the dictionary built by \<^verbatim>\<open>YouTubeDownloader.search_and_download\<close>:
  it always carries the keys \<^verbatim>\<open>title\<close>, \<^verbatim>\<open>url\<close>, \<^verbatim>\<open>file_path\<close>, \<^verbatim>\<open>duration\<close> and
  \<^verbatim>\<open>uploader\<close>, so it is a record. A record is never an empty dictionary, hence the
  truth test \<^verbatim>\<open>if current_song:\<close> of the handlers is the test for \<open>Some\<close>.
\<close>

record song =
  title :: string
  url :: string
  file_path :: string
  duration :: int
  uploader :: string

text \<open>
  \<^verbatim>\<open>QueueManager.queues\<close> is a \<^verbatim>\<open>defaultdict(list)\<close> keyed by the chat identifier: a
  partial map, where reading a missing key stores an empty list under it.
\<close>

type_synonym queues = "int \<rightharpoonup> song list"

definition lookup_queue :: "queues \<Rightarrow> int \<Rightarrow> queues \<times> song list" where
  "lookup_queue qs chat_id =
     (case qs chat_id of
        None \<Rightarrow> (qs(chat_id \<mapsto> []), [])
      | Some q \<Rightarrow> (qs, q))"

text \<open>The contents of a chat's queue, as every reader of the store sees them.\<close>

definition queue_of :: "queues \<Rightarrow> int \<Rightarrow> song list" where
  "queue_of qs chat_id = snd (lookup_queue qs chat_id)"

section \<open>The queue manager\<close>

text \<open>
  Every operation takes the store and returns the store it leaves behind together with
  its return value. The first argument of \<open>add_to_queue\<close> is \<^verbatim>\<open>Config.MAX_QUEUE_SIZE\<close>,
  an integer read from the environment (20 when unset).
\<close>

definition default_MAX_QUEUE_SIZE :: int where
  "default_MAX_QUEUE_SIZE = 20"

definition add_to_queue :: "int \<Rightarrow> queues \<Rightarrow> int \<Rightarrow> song \<Rightarrow> queues \<times> int" where
  "add_to_queue max_queue_size qs chat_id song_info =
     (let (qs1, q) = lookup_queue qs chat_id in
      if int (length q) \<ge> max_queue_size then (qs1, - 1)
      else (let q' = q @ [song_info];
                position = int (length q')
            in (qs1(chat_id \<mapsto> q'), position)))"

text \<open>
  The loop of \<^verbatim>\<open>remove_from_queue\<close>: walk the list, pop the first element with the
  same title and url, and say whether one was found.
\<close>

definition same_song :: "song \<Rightarrow> song \<Rightarrow> bool" where
  "same_song s song_info \<longleftrightarrow> title s = title song_info \<and> url s = url song_info"

fun remove_first :: "song \<Rightarrow> song list \<Rightarrow> song list \<times> bool" where
  "remove_first song_info [] = ([], False)"
| "remove_first song_info (s # rest) =
     (if same_song s song_info then (rest, True)
      else (let (rest', found) = remove_first song_info rest in (s # rest', found)))"

definition remove_from_queue :: "queues \<Rightarrow> int \<Rightarrow> song \<Rightarrow> queues \<times> bool" where
  "remove_from_queue qs chat_id song_info =
     (let (qs1, q) = lookup_queue qs chat_id;
          (q', found) = remove_first song_info q
      in if found then (qs1(chat_id \<mapsto> q'), True) else (qs1, False))"

definition get_current_song :: "queues \<Rightarrow> int \<Rightarrow> queues \<times> song option" where
  "get_current_song qs chat_id =
     (let (qs1, q) = lookup_queue qs chat_id in
      case q of [] \<Rightarrow> (qs1, None) | s # _ \<Rightarrow> (qs1, Some s))"

definition get_next_song :: "queues \<Rightarrow> int \<Rightarrow> queues \<times> song option" where
  "get_next_song qs chat_id =
     (let (qs1, q) = lookup_queue qs chat_id in
      if length q > 1 then (qs1, Some (q ! 1)) else (qs1, None))"

definition get_queue :: "queues \<Rightarrow> int \<Rightarrow> queues \<times> song list" where
  "get_queue qs chat_id = lookup_queue qs chat_id"

definition clear_queue :: "queues \<Rightarrow> int \<Rightarrow> queues \<times> bool" where
  "clear_queue qs chat_id =
     (if chat_id \<in> dom qs then (qs(chat_id \<mapsto> []), True) else (qs, False))"

definition get_queue_size :: "queues \<Rightarrow> int \<Rightarrow> queues \<times> int" where
  "get_queue_size qs chat_id =
     (let (qs1, q) = lookup_queue qs chat_id in (qs1, int (length q)))"

text \<open>
  \<^verbatim>\<open>list.pop(i)\<close> and \<^verbatim>\<open>list.insert(i, x)\<close> for an index that \<open>move_song\<close> has
  already checked to lie inside the list.
\<close>

definition list_pop :: "'a list \<Rightarrow> nat \<Rightarrow> 'a list" where
  "list_pop xs i = take i xs @ drop (Suc i) xs"

definition list_insert :: "'a list \<Rightarrow> nat \<Rightarrow> 'a \<Rightarrow> 'a list" where
  "list_insert xs i x = take i xs @ x # drop i xs"

definition move_song :: "queues \<Rightarrow> int \<Rightarrow> int \<Rightarrow> int \<Rightarrow> queues \<times> bool" where
  "move_song qs chat_id from_position to_position =
     (let (qs1, q) = lookup_queue qs chat_id;
          queue_size = int (length q);
          from_idx = from_position - 1;
          to_idx = to_position - 1
      in if \<not> (0 \<le> from_idx \<and> from_idx < queue_size \<and> 0 \<le> to_idx \<and> to_idx < queue_size)
         then (qs1, False)
         else (let s = q ! nat from_idx;
                   q1 = list_pop q (nat from_idx);
                   q2 = list_insert q1 (nat to_idx) s
               in (qs1(chat_id \<mapsto> q2), True)))"

text \<open>
  \<^verbatim>\<open>random.shuffle\<close> is the standard library's exchange loop: for \<open>i\<close> from the last
  index down to 1 it draws \<open>j\<close> below \<open>i + 1\<close> and exchanges the elements at \<open>i\<close> and
  \<open>j\<close>. The draws are a parameter: \<open>rnd i\<close> is the raw number drawn at step \<open>i\<close>, and
  every outcome of the shuffle is the result for some \<open>rnd\<close>.
\<close>

fun shuffle_loop :: "(nat \<Rightarrow> nat) \<Rightarrow> nat \<Rightarrow> 'a list \<Rightarrow> 'a list" where
  "shuffle_loop rnd 0 xs = xs"
| "shuffle_loop rnd (Suc k) xs =
     (let i = Suc k;
          j = rnd i mod (i + 1)
      in shuffle_loop rnd k (xs[i := xs ! j, j := xs ! i]))"

definition random_shuffle :: "(nat \<Rightarrow> nat) \<Rightarrow> 'a list \<Rightarrow> 'a list" where
  "random_shuffle rnd xs = shuffle_loop rnd (length xs - 1) xs"

definition shuffle_queue :: "(nat \<Rightarrow> nat) \<Rightarrow> queues \<Rightarrow> int \<Rightarrow> bool \<Rightarrow> queues \<times> bool" where
  "shuffle_queue rnd qs chat_id preserve_current =
     (let (qs1, q) = lookup_queue qs chat_id in
      if length q \<le> 1 then (qs1, False)
      else if preserve_current \<and> q \<noteq> [] then
        (let current_song = hd q;
             remaining_songs = random_shuffle rnd (tl q)
         in (qs1(chat_id \<mapsto> [current_song] @ remaining_songs), True))
      else (qs1(chat_id \<mapsto> random_shuffle rnd q), True))"

text \<open>
  The store as a whole: the operations that write to it, applied one after the other.
  A state of the store is reachable when such a run leads to it from the empty store.
\<close>

datatype queue_op =
    Add_to_queue int song
  | Remove_from_queue int song
  | Clear_queue int
  | Move_song int int int
  | Shuffle_queue "nat \<Rightarrow> nat" int bool
  | Get_current_song int

fun apply_queue_op :: "int \<Rightarrow> queues \<Rightarrow> queue_op \<Rightarrow> queues" where
  "apply_queue_op mx qs (Add_to_queue c t) = fst (add_to_queue mx qs c t)"
| "apply_queue_op mx qs (Remove_from_queue c t) = fst (remove_from_queue qs c t)"
| "apply_queue_op mx qs (Clear_queue c) = fst (clear_queue qs c)"
| "apply_queue_op mx qs (Move_song c a b) = fst (move_song qs c a b)"
| "apply_queue_op mx qs (Shuffle_queue rnd c pc) = fst (shuffle_queue rnd qs c pc)"
| "apply_queue_op mx qs (Get_current_song c) = fst (get_current_song qs c)"

fun run_queue_ops :: "int \<Rightarrow> queues \<Rightarrow> queue_op list \<Rightarrow> queues" where
  "run_queue_ops mx qs [] = qs"
| "run_queue_ops mx qs (op # ops) = run_queue_ops mx (apply_queue_op mx qs op) ops"

section \<open>The music player\<close>

text \<open>
  \<^verbatim>\<open>MusicPlayer\<close> keeps four dictionaries keyed by the chat identifier. Of the
  processes and threads only the keys matter here. \<^verbatim>\<open>os.path.exists\<close> is the one
  question \<open>play_audio\<close> asks the file system, and a parameter of the model.
\<close>

record MusicPlayer =
  active_streams :: "int \<rightharpoonup> bool"
  paused_streams :: "int \<rightharpoonup> bool"
  current_processes :: "int set"
  playback_threads :: "int set"

definition paused_get :: "MusicPlayer \<Rightarrow> int \<Rightarrow> bool" where
  "paused_get p chat_id = (case paused_streams p chat_id of None \<Rightarrow> False | Some b \<Rightarrow> b)"

definition stop_audio :: "MusicPlayer \<Rightarrow> int \<Rightarrow> MusicPlayer \<times> bool" where
  "stop_audio p chat_id =
     (if chat_id \<in> dom (active_streams p) then
        (p\<lparr>active_streams := (active_streams p)(chat_id := None),
           paused_streams := (paused_streams p)(chat_id := None),
           current_processes := current_processes p - {chat_id},
           playback_threads := playback_threads p - {chat_id}\<rparr>, True)
      else (p, True))"

definition play_audio :: "(string \<Rightarrow> bool) \<Rightarrow> MusicPlayer \<Rightarrow> int \<Rightarrow> string \<Rightarrow> MusicPlayer \<times> bool" where
  "play_audio path_exists p chat_id path =
     (if \<not> path_exists path then (p, False)
      else (let p1 = (if chat_id \<in> dom (active_streams p) then fst (stop_audio p chat_id) else p);
                p2 = p1\<lparr>active_streams := (active_streams p1)(chat_id \<mapsto> True),
                        paused_streams := (paused_streams p1)(chat_id \<mapsto> False),
                        playback_threads := insert chat_id (playback_threads p1)\<rparr>
            in (p2, True)))"

text \<open>
  What the playback thread does once its waiting loop is over: it clears the chat's
  flags, unless the chat is no longer active or is paused.
\<close>

definition simulate_playback_cleanup :: "MusicPlayer \<Rightarrow> int \<Rightarrow> MusicPlayer" where
  "simulate_playback_cleanup p chat_id =
     (if chat_id \<in> dom (active_streams p) \<and> \<not> paused_get p chat_id then
        p\<lparr>active_streams := (active_streams p)(chat_id := None),
          paused_streams := (paused_streams p)(chat_id := None)\<rparr>
      else p)"

definition pause_audio :: "MusicPlayer \<Rightarrow> int \<Rightarrow> MusicPlayer \<times> bool" where
  "pause_audio p chat_id =
     (if chat_id \<notin> dom (active_streams p) \<or> paused_get p chat_id then (p, False)
      else (p\<lparr>paused_streams := (paused_streams p)(chat_id \<mapsto> True)\<rparr>, True))"

definition resume_audio :: "MusicPlayer \<Rightarrow> int \<Rightarrow> MusicPlayer \<times> bool" where
  "resume_audio p chat_id =
     (if chat_id \<notin> dom (active_streams p) \<or> \<not> paused_get p chat_id then (p, False)
      else (p\<lparr>paused_streams := (paused_streams p)(chat_id \<mapsto> False)\<rparr>, True))"

definition is_playing :: "MusicPlayer \<Rightarrow> int \<Rightarrow> bool" where
  "is_playing p chat_id \<longleftrightarrow> chat_id \<in> dom (active_streams p) \<and> \<not> paused_get p chat_id"

definition is_paused :: "MusicPlayer \<Rightarrow> int \<Rightarrow> bool" where
  "is_paused p chat_id \<longleftrightarrow> chat_id \<in> dom (active_streams p) \<and> paused_get p chat_id"

text \<open>
  The code has no variable for the state of a session: a chat is Playing, Paused or
  Idle according to the two tests above.
\<close>

datatype playback_state = Idle | Playing | Paused

definition session_state :: "MusicPlayer \<Rightarrow> int \<Rightarrow> playback_state" where
  "session_state p chat_id =
     (if is_paused p chat_id then Paused
      else if is_playing p chat_id then Playing
      else Idle)"

section \<open>The bot\<close>

text \<open>
  A handler takes the state of the bot and returns the new state together with what it
  did to the outside, in order: the messages it sent or edited and the calls it made to
  the music player. The handlers are taken as running one at a time. The world outside
  is the file system's answer to \<^verbatim>\<open>os.path.exists\<close>, the outcome of
  \<^verbatim>\<open>search_and_download\<close> for a query, the configured queue size, and whether
  a message that the bot sends or edits is delivered.
\<close>

datatype message =
    Usage
  | Searching string
  | No_results
  | Now_playing string
  | Failed_to_join
  | Added_to_queue int string
  | Error_occurred
  | Paused_song
  | No_active_playback
  | Resumed
  | No_paused_playback
  | Stopped
  | No_song_playing
  | Skipped_now_playing string
  | Skipped_no_more

text \<open>
  \<open>Reply\<close> and \<open>Edit\<close> are messages that were delivered; \<open>Raised e\<close> is the attempt
  \<open>e\<close> that ended in an exception instead.
\<close>

datatype effect =
    Reply message
  | Edit message
  | Call_play_audio int string
  | Call_stop_audio int
  | Call_pause_audio int
  | Call_resume_audio int
  | Raised effect

record environment =
  MAX_QUEUE_SIZE :: int
  path_exists :: "string \<Rightarrow> bool"
  search_and_download :: "string \<Rightarrow> song option"
  send_ok :: "effect \<Rightarrow> bool"

record MusicBot =
  queue_manager :: queues
  music_player :: MusicPlayer

fun join_words :: "string list \<Rightarrow> string" where
  "join_words [] = []"
| "join_words [w] = w"
| "join_words (w # ws) = w @ '' '' @ join_words ws"

text \<open>
  An awaited \<^verbatim>\<open>reply_text\<close> or \<^verbatim>\<open>edit_text\<close> either delivers its message or
  raises. \<open>send\<close> is such a call as the last thing a handler does. \<open>sending env e b rest\<close>
  is such a call made when the bot is \<open>b\<close>, followed by \<open>rest\<close>: when the call raises,
  the rest is not run and the bot stays \<open>b\<close>. The third component of a result says
  whether the block came to its end without an exception. \<open>calling\<close> records a call to
  the music player, which catches its own exceptions.
\<close>

definition send :: "environment \<Rightarrow> effect \<Rightarrow> effect list" where
  "send env e = (if send_ok env e then [e] else [Raised e])"

definition sending ::
  "environment \<Rightarrow> effect \<Rightarrow> MusicBot \<Rightarrow> MusicBot \<times> effect list \<times> bool
     \<Rightarrow> MusicBot \<times> effect list \<times> bool" where
  "sending env e b rest =
     (if send_ok env e then (fst rest, e # fst (snd rest), snd (snd rest))
      else (b, [Raised e], False))"

definition calling ::
  "effect \<Rightarrow> MusicBot \<times> effect list \<times> bool \<Rightarrow> MusicBot \<times> effect list \<times> bool" where
  "calling e rest = (fst rest, e # fst (snd rest), snd (snd rest))"

text \<open>
  The \<^verbatim>\<open>try\<close> block of \<^verbatim>\<open>play_command\<close>, and the command itself: when the block
  raises, the \<^verbatim>\<open>except\<close> clause sends the caller a general error message, and
  whatever the block had done to the bot by then stays done.
\<close>

definition play_command_try ::
  "environment \<Rightarrow> MusicBot \<Rightarrow> int \<Rightarrow> string list \<Rightarrow> MusicBot \<times> effect list \<times> bool" where
  "play_command_try env b chat_id args =
     (if args = [] then sending env (Reply Usage) b (b, [], True)
      else
        (let song_name = join_words args in
         sending env (Reply (Searching song_name)) b
           (case search_and_download env song_name of
              None \<Rightarrow> sending env (Edit No_results) b (b, [], True)
            | Some result \<Rightarrow>
                (let (qs1, queue_position) =
                       add_to_queue (MAX_QUEUE_SIZE env) (queue_manager b) chat_id result;
                     b1 = b\<lparr>queue_manager := qs1\<rparr>
                 in if queue_position = 1 then
                      sending env (Edit (Now_playing (title result))) b1
                        (let (p1, success) =
                               play_audio (path_exists env) (music_player b1) chat_id
                                 (file_path result);
                             b2 = b1\<lparr>music_player := p1\<rparr>
                         in calling (Call_play_audio chat_id (file_path result))
                              (if \<not> success then
                                 sending env (Reply Failed_to_join) b2
                                   (b2\<lparr>queue_manager :=
                                         fst (remove_from_queue (queue_manager b2) chat_id
                                                result)\<rparr>,
                                    [], True)
                               else (b2, [], True)))
                    else
                      sending env (Edit (Added_to_queue queue_position (title result))) b1
                        (b1, [], True)))))"

definition play_command ::
  "environment \<Rightarrow> MusicBot \<Rightarrow> int \<Rightarrow> string list \<Rightarrow> MusicBot \<times> effect list" where
  "play_command env b chat_id args =
     (let (b1, out, finished) = play_command_try env b chat_id args in
      if finished then (b1, out) else (b1, out @ send env (Reply Error_occurred)))"

text \<open>The other handlers have no \<^verbatim>\<open>try\<close>: an exception ends them where it is raised.\<close>

definition pause_command :: "environment \<Rightarrow> MusicBot \<Rightarrow> int \<Rightarrow> MusicBot \<times> effect list" where
  "pause_command env b chat_id =
     (let (p1, ok) = pause_audio (music_player b) chat_id in
      (b\<lparr>music_player := p1\<rparr>,
       Call_pause_audio chat_id
         # send env (Reply (if ok then Paused_song else No_active_playback))))"

definition resume_command :: "environment \<Rightarrow> MusicBot \<Rightarrow> int \<Rightarrow> MusicBot \<times> effect list" where
  "resume_command env b chat_id =
     (let (p1, ok) = resume_audio (music_player b) chat_id in
      (b\<lparr>music_player := p1\<rparr>,
       Call_resume_audio chat_id
         # send env (Reply (if ok then Resumed else No_paused_playback))))"

definition stop_command :: "environment \<Rightarrow> MusicBot \<Rightarrow> int \<Rightarrow> MusicBot \<times> effect list" where
  "stop_command env b chat_id =
     (let (p1, _) = stop_audio (music_player b) chat_id;
          (qs1, _) = clear_queue (queue_manager b) chat_id
      in (b\<lparr>queue_manager := qs1, music_player := p1\<rparr>,
          Call_stop_audio chat_id # send env (Reply Stopped)))"

definition skip_command :: "environment \<Rightarrow> MusicBot \<Rightarrow> int \<Rightarrow> MusicBot \<times> effect list" where
  "skip_command env b chat_id =
     (let (qs1, current_song) = get_current_song (queue_manager b) chat_id in
      case current_song of
        None \<Rightarrow> (b\<lparr>queue_manager := qs1\<rparr>, send env (Reply No_song_playing))
      | Some cur \<Rightarrow>
          (let (qs2, _) = remove_from_queue qs1 chat_id cur;
               (qs3, next_song) = get_current_song qs2 chat_id
           in case next_song of
                Some nxt \<Rightarrow>
                  (if send_ok env (Reply (Skipped_now_playing (title nxt))) then
                     (let (p1, _) =
                            play_audio (path_exists env) (music_player b) chat_id
                              (file_path nxt)
                      in (b\<lparr>queue_manager := qs3, music_player := p1\<rparr>,
                          [Reply (Skipped_now_playing (title nxt)),
                           Call_play_audio chat_id (file_path nxt)]))
                   else
                     (b\<lparr>queue_manager := qs3\<rparr>,
                      [Raised (Reply (Skipped_now_playing (title nxt)))]))
              | None \<Rightarrow>
                  (let (p1, _) = stop_audio (music_player b) chat_id
                   in (b\<lparr>queue_manager := qs3, music_player := p1\<rparr>,
                       Call_stop_audio chat_id # send env (Reply Skipped_no_more)))))"


text \<open>
  What can happen to a bot: a command arrives for a chat, or a playback thread comes to
  the end of its waiting loop. A run starts from the bot as \<^verbatim>\<open>__init__\<close> leaves it.
\<close>

datatype event =
    Play int "string list"
  | Pause int
  | Resume int
  | Stop int
  | Skip int
  | Playback_over int

fun handle :: "environment \<Rightarrow> MusicBot \<Rightarrow> event \<Rightarrow> MusicBot \<times> effect list" where
  "handle env b (Play c args) = play_command env b c args"
| "handle env b (Pause c) = pause_command env b c"
| "handle env b (Resume c) = resume_command env b c"
| "handle env b (Stop c) = stop_command env b c"
| "handle env b (Skip c) = skip_command env b c"
| "handle env b (Playback_over c) =
     (b\<lparr>music_player := simulate_playback_cleanup (music_player b) c\<rparr>, [])"

fun run :: "environment \<Rightarrow> MusicBot \<Rightarrow> event list \<Rightarrow> MusicBot \<times> effect list" where
  "run env b [] = (b, [])"
| "run env b (e # es) =
     (let (b1, out1) = handle env b e;
          (b2, out2) = run env b1 es
      in (b2, out1 @ out2))"

definition init_bot :: MusicBot where
  "init_bot =
     \<lparr>queue_manager = Map.empty,
      music_player = \<lparr>active_streams = Map.empty, paused_streams = Map.empty,
                      current_processes = {}, playback_threads = {}\<rparr>\<rparr>"



text \<open>Songs and a world to run the definitions on.\<close>

definition song_A :: song where
  "song_A = \<lparr>title = ''A'', url = ''https://www.youtube.com/watch?v=a'',
              file_path = ''./downloads/A.mp3'', duration = 180, uploader = ''Demo Channel''\<rparr>"

definition song_B :: song where
  "song_B = \<lparr>title = ''B'', url = ''https://www.youtube.com/watch?v=b'',
              file_path = ''./downloads/B.mp3'', duration = 200, uploader = ''Demo Channel''\<rparr>"

definition song_C :: song where
  "song_C = \<lparr>title = ''C'', url = ''https://www.youtube.com/watch?v=c'',
              file_path = ''./downloads/C.mp3'', duration = 220, uploader = ''Demo Channel''\<rparr>"

definition song_D :: song where
  "song_D = \<lparr>title = ''Song_D'', url = ''https://www.youtube.com/watch?v=d'',
              file_path = ''./downloads/Song_D.mp3'', duration = 240,
              uploader = ''Demo Channel''\<rparr>"


text \<open>
  The messages that go out with \<^verbatim>\<open>parse_mode='Markdown'\<close> and carry a text from
  outside, a query or a title. In the world of the examples such a message is refused
  when that text has an odd number of underscores, an emphasis that is opened and never
  closed; every other message is delivered.
\<close>

fun markdown_text :: "message \<Rightarrow> string option" where
  "markdown_text (Searching q) = Some q"
| "markdown_text (Now_playing t) = Some t"
| "markdown_text (Added_to_queue n t) = Some t"
| "markdown_text (Skipped_now_playing t) = Some t"
| "markdown_text m = None"

definition markdown_ok :: "message \<Rightarrow> bool" where
  "markdown_ok m =
     (case markdown_text m of
        None \<Rightarrow> True
      | Some s \<Rightarrow> even (length (filter (\<lambda>ch. ch = CHR ''_'') s)))"

definition demo_send_ok :: "effect \<Rightarrow> bool" where
  "demo_send_ok e = (case e of Reply m \<Rightarrow> markdown_ok m | Edit m \<Rightarrow> markdown_ok m | _ \<Rightarrow> True)"

text \<open>
  A world for the examples: the default queue size, the media files of \<open>song_A\<close>,
  \<open>song_B\<close> and \<open>song_D\<close> on disk and that of \<open>song_C\<close> missing, a search that finds
  the songs, and messages delivered as said above. The second definition is the bot
  after song A was started and then paused in chat 1.
\<close>

definition demo_env :: environment where
  "demo_env =
     \<lparr>MAX_QUEUE_SIZE = default_MAX_QUEUE_SIZE,
      path_exists =
        (\<lambda>p. p = file_path song_A \<or> p = file_path song_B \<or> p = file_path song_D),
      search_and_download =
        (\<lambda>q. if q = ''A'' then Some song_A
             else if q = ''B'' then Some song_B
             else if q = ''C'' then Some song_C
             else if q = ''D'' then Some song_D
             else None),
      send_ok = demo_send_ok\<rparr>"

definition demo_paused_bot :: MusicBot where
  "demo_paused_bot = fst (run demo_env init_bot [Play 1 [''A''], Pause 1])"



section \<open>Basic facts about the store\<close>

lemma queue_of_alt: "queue_of qs c = (case qs c of None \<Rightarrow> [] | Some q \<Rightarrow> q)"
  by (simp add: queue_of_def lookup_queue_def split: option.splits)

lemma queue_of_lookup: "queue_of (fst (lookup_queue qs c)) c' = queue_of qs c'"
  by (simp add: queue_of_alt lookup_queue_def split: option.splits)

lemma lookup_queue_snd: "snd (lookup_queue qs c) = queue_of qs c"
  by (simp add: queue_of_def)

lemma queue_of_upd: "queue_of (qs(c \<mapsto> q)) c' = (if c' = c then q else queue_of qs c')"
  by (simp add: queue_of_alt)

lemma queue_of_empty: "queue_of Map.empty c = []"
  by (simp add: queue_of_alt)

lemma add_to_queue_queue:
  "queue_of (fst (add_to_queue mx qs c t)) c' =
     (if c' = c \<and> int (length (queue_of qs c)) < mx then queue_of qs c @ [t]
      else queue_of qs c')"
  by (cases "lookup_queue qs c")
     (use queue_of_lookup [of qs c c'] lookup_queue_snd [of qs c] in
      \<open>auto simp: add_to_queue_def Let_def queue_of_upd\<close>)

lemma add_to_queue_result:
  "snd (add_to_queue mx qs c t) =
     (if int (length (queue_of qs c)) < mx then int (length (queue_of qs c)) + 1 else - 1)"
  by (cases "lookup_queue qs c")
     (use lookup_queue_snd [of qs c] in \<open>auto simp: add_to_queue_def Let_def\<close>)

lemma remove_first_found: "snd (remove_first t q) \<longleftrightarrow> (\<exists>x \<in> set q. same_song x t)"
  by (induction q) (auto split: prod.splits)

lemma remove_first_length:
  "length (fst (remove_first t q)) = (if snd (remove_first t q) then length q - 1 else length q)"
proof (induction q)
  case Nil
  then show ?case by simp
next
  case (Cons s rest)
  show ?case
  proof (cases "same_song s t")
    case True
    then show ?thesis by simp
  next
    case False
    have "snd (remove_first t rest) \<Longrightarrow> rest \<noteq> []"
      by (auto simp: remove_first_found)
    then show ?thesis using False Cons.IH
      by (cases "remove_first t rest") auto
  qed
qed

lemma remove_first_not_found: "\<not> snd (remove_first t q) \<Longrightarrow> fst (remove_first t q) = q"
  by (induction q) (auto split: prod.splits)

lemma remove_first_count:
  "length (filter (\<lambda>x. same_song x t) (fst (remove_first t q))) =
     length (filter (\<lambda>x. same_song x t) q) - 1"
  by (induction q) (auto split: prod.splits)

lemma remove_first_head:
  "same_song s t \<Longrightarrow> remove_first t (s # rest) = (rest, True)"
  by simp

lemma remove_from_queue_queue:
  "queue_of (fst (remove_from_queue qs c t)) c' =
     (if c' = c then fst (remove_first t (queue_of qs c)) else queue_of qs c')"
  by (cases "lookup_queue qs c"; cases "remove_first t (queue_of qs c)")
     (use queue_of_lookup [of qs c c'] lookup_queue_snd [of qs c]
          remove_first_not_found [of t "queue_of qs c"] in
      \<open>auto simp: remove_from_queue_def Let_def queue_of_upd\<close>)

lemma remove_from_queue_result:
  "snd (remove_from_queue qs c t) = snd (remove_first t (queue_of qs c))"
  by (cases "lookup_queue qs c"; cases "remove_first t (queue_of qs c)")
     (use lookup_queue_snd [of qs c] in \<open>auto simp: remove_from_queue_def Let_def\<close>)

lemma get_current_song_queue:
  "queue_of (fst (get_current_song qs c)) c' = queue_of qs c'"
  by (cases "lookup_queue qs c")
     (use queue_of_lookup [of qs c c'] in
      \<open>auto simp: get_current_song_def split: list.splits\<close>)

lemma get_current_song_result:
  "snd (get_current_song qs c) = (case queue_of qs c of [] \<Rightarrow> None | s # _ \<Rightarrow> Some s)"
  by (cases "lookup_queue qs c")
     (use lookup_queue_snd [of qs c] in
      \<open>auto simp: get_current_song_def split: list.splits\<close>)

lemma clear_queue_queue:
  "queue_of (fst (clear_queue qs c)) c' = (if c' = c then [] else queue_of qs c')"
  by (auto simp: clear_queue_def queue_of_alt split: option.splits)

lemma move_song_queue:
  "queue_of (fst (move_song qs c a b)) c' =
     (if c' = c \<and> 1 \<le> a \<and> a \<le> int (length (queue_of qs c))
          \<and> 1 \<le> b \<and> b \<le> int (length (queue_of qs c))
      then list_insert (list_pop (queue_of qs c) (nat (a - 1))) (nat (b - 1))
             (queue_of qs c ! nat (a - 1))
      else queue_of qs c')"
  by (cases "lookup_queue qs c")
     (use queue_of_lookup [of qs c c'] lookup_queue_snd [of qs c] in
      \<open>auto simp: move_song_def Let_def queue_of_upd\<close>)

lemma move_song_result:
  "snd (move_song qs c a b) \<longleftrightarrow>
     1 \<le> a \<and> a \<le> int (length (queue_of qs c)) \<and> 1 \<le> b \<and> b \<le> int (length (queue_of qs c))"
  by (cases "lookup_queue qs c")
     (use lookup_queue_snd [of qs c] in \<open>auto simp: move_song_def Let_def\<close>)

lemma shuffle_queue_queue:
  "queue_of (fst (shuffle_queue rnd qs c pc)) c' =
     (if c' = c \<and> 1 < length (queue_of qs c)
      then (if pc then hd (queue_of qs c) # random_shuffle rnd (tl (queue_of qs c))
            else random_shuffle rnd (queue_of qs c))
      else queue_of qs c')"
  by (cases "lookup_queue qs c")
     (use queue_of_lookup [of qs c c'] lookup_queue_snd [of qs c] in
      \<open>auto simp: shuffle_queue_def Let_def queue_of_upd\<close>)

lemma shuffle_queue_result:
  "snd (shuffle_queue rnd qs c pc) \<longleftrightarrow> 1 < length (queue_of qs c)"
  by (cases "lookup_queue qs c")
     (use lookup_queue_snd [of qs c] in \<open>auto simp: shuffle_queue_def Let_def\<close>)

lemma shuffle_loop_length: "length (shuffle_loop rnd k xs) = length xs"
  by (induction k arbitrary: xs) (simp_all add: Let_def)

lemma shuffle_loop_mset: "k < length xs \<Longrightarrow> mset (shuffle_loop rnd k xs) = mset xs"
proof (induction k arbitrary: xs)
  case 0
  then show ?case by simp
next
  case (Suc k)
  let ?j = "rnd (Suc k) mod (Suc k + 1)"
  have j: "?j < length xs" using Suc.prems by (simp add: less_le_trans [OF mod_less_divisor])
  have "mset (xs[Suc k := xs ! ?j, ?j := xs ! Suc k]) = mset xs"
    using mset_swap [OF j Suc.prems] .
  moreover have "k < length (xs[Suc k := xs ! ?j, ?j := xs ! Suc k])"
    using Suc.prems by simp
  ultimately show ?case using Suc.IH by (simp add: Let_def)
qed

lemma random_shuffle_mset: "mset (random_shuffle rnd xs) = mset xs"
  by (cases xs) (simp_all add: random_shuffle_def shuffle_loop_mset)

lemma random_shuffle_length: "length (random_shuffle rnd xs) = length xs"
  by (simp add: random_shuffle_def shuffle_loop_length)

lemma list_pop_length: "i < length xs \<Longrightarrow> length (list_pop xs i) = length xs - 1"
  by (auto simp: list_pop_def)

lemma list_insert_length: "length (list_insert xs i x) = length xs + 1"
  by (auto simp: list_insert_def)

lemma list_insert_nth: "i \<le> length xs \<Longrightarrow> list_insert xs i x ! i = x"
  by (simp add: list_insert_def nth_append)

lemma list_pop_insert: "i \<le> length xs \<Longrightarrow> list_pop (list_insert xs i x) i = xs"
  by (simp add: list_pop_def list_insert_def)

lemma list_insert_pop: "i < length xs \<Longrightarrow> list_insert (list_pop xs i) i (xs ! i) = xs"
  by (simp add: list_pop_def list_insert_def id_take_nth_drop [symmetric])

section \<open>Enqueue\<close>

text \<open>
  C9. A successful \<open>add_to_queue\<close> returns the 1-based position of the new song, which
  is the length of the queue right after the append; the queue grows by exactly one
  song, placed last, so every song queued before keeps its index, and the queues of the
  other chats are untouched. The rejection of a full queue is the return value \<open>-1\<close>,
  which no successful call returns, and it leaves every queue as it was.
\<close>

theorem add_to_queue_position:
  "(int (length (queue_of qs c)) < mx \<longrightarrow>
      snd (add_to_queue mx qs c t) = int (length (queue_of (fst (add_to_queue mx qs c t)) c))
      \<and> snd (add_to_queue mx qs c t) \<ge> 1
      \<and> length (queue_of (fst (add_to_queue mx qs c t)) c) = length (queue_of qs c) + 1
      \<and> queue_of (fst (add_to_queue mx qs c t)) c = queue_of qs c @ [t]
      \<and> (\<forall>i < length (queue_of qs c).
            queue_of (fst (add_to_queue mx qs c t)) c ! i = queue_of qs c ! i))
   \<and> (\<not> int (length (queue_of qs c)) < mx \<longrightarrow>
        snd (add_to_queue mx qs c t) = - 1
        \<and> queue_of (fst (add_to_queue mx qs c t)) c = queue_of qs c)
   \<and> (\<forall>c'. c' \<noteq> c \<longrightarrow> queue_of (fst (add_to_queue mx qs c t)) c' = queue_of qs c')"
  by (simp add: add_to_queue_queue add_to_queue_result nth_append)

theorem add_to_queue_position_witness:
  "int (length (queue_of [1 \<mapsto> [song_A]] 1)) < 20
   \<and> snd (add_to_queue 20 [1 \<mapsto> [song_A]] 1 song_B) = 2
   \<and> queue_of (fst (add_to_queue 20 [1 \<mapsto> [song_A]] 1 song_B)) 1 = [song_A, song_B]
   \<and> queue_of (fst (add_to_queue 20 [1 \<mapsto> [song_A]] 1 song_B)) 1 ! 0 = song_A
   \<and> queue_of (fst (add_to_queue 20 [1 \<mapsto> [song_A]] 1 song_B)) 2 = []
   \<and> \<not> int (length (queue_of [1 \<mapsto> [song_A]] 1)) < 1
   \<and> snd (add_to_queue 1 [1 \<mapsto> [song_A]] 1 song_B) = - 1
   \<and> queue_of (fst (add_to_queue 1 [1 \<mapsto> [song_A]] 1 song_B)) 1 = [song_A]"
  using add_to_queue_position [of "[1 \<mapsto> [song_A]]" 1 20 song_B]
        add_to_queue_position [of "[1 \<mapsto> [song_A]]" 1 1 song_B]
  by (simp add: queue_of_upd queue_of_empty)

lemma apply_queue_op_bound:
  assumes "0 \<le> mx" and "\<forall>c. int (length (queue_of qs c)) \<le> mx"
  shows "int (length (queue_of (apply_queue_op mx qs op) c)) \<le> mx"
proof (cases op)
  case (Add_to_queue c' t)
  then show ?thesis using assms by (auto simp: add_to_queue_queue)
next
  case (Remove_from_queue c' t)
  have "length (fst (remove_first t (queue_of qs c'))) \<le> length (queue_of qs c')"
    by (simp add: remove_first_length)
  then have "int (length (fst (remove_first t (queue_of qs c')))) \<le> mx"
    using assms(2) [rule_format, of c'] by linarith
  then show ?thesis using Remove_from_queue assms by (simp add: remove_from_queue_queue)
next
  case (Clear_queue c')
  then show ?thesis using assms by (simp add: clear_queue_queue)
next
  case (Move_song c' a b)
  have "1 \<le> a \<Longrightarrow> a \<le> int (length (queue_of qs c')) \<Longrightarrow>
        length (list_insert (list_pop (queue_of qs c') (nat (a - 1))) (nat (b - 1))
                  (queue_of qs c' ! nat (a - 1))) = length (queue_of qs c')"
    by (simp add: list_insert_length list_pop_length)
  then show ?thesis using Move_song assms by (simp add: move_song_queue)
next
  case (Shuffle_queue rnd c' pc)
  have "1 < length (queue_of qs c') \<Longrightarrow>
        length (hd (queue_of qs c') # random_shuffle rnd (tl (queue_of qs c'))) = length (queue_of qs c')"
    by (simp add: random_shuffle_length)
  then show ?thesis using Shuffle_queue assms
    by (simp add: shuffle_queue_queue random_shuffle_length)
next
  case (Get_current_song c')
  then show ?thesis using assms by (simp add: get_current_song_queue)
qed

lemma run_queue_ops_bound:
  "0 \<le> mx \<Longrightarrow> \<forall>c. int (length (queue_of qs c)) \<le> mx \<Longrightarrow>
   int (length (queue_of (run_queue_ops mx qs ops) c)) \<le> mx"
proof (induction ops arbitrary: qs)
  case Nil
  then show ?case by simp
next
  case (Cons op ops)
  have "\<forall>c. int (length (queue_of (apply_queue_op mx qs op) c)) \<le> mx"
    using apply_queue_op_bound [OF Cons.prems] by blast
  then show ?case using Cons.IH [OF Cons.prems(1)] by simp
qed

lemma reachable_bound:
  "0 \<le> mx \<Longrightarrow> int (length (queue_of (run_queue_ops mx Map.empty ops) c)) \<le> mx"
  by (rule run_queue_ops_bound) (simp_all add: queue_of_empty)

text \<open>
  C4. Let the store be one that a run of store operations reaches from the empty store,
  with a queue size limit that is not negative. Then no queue is longer than the limit;
  \<open>add_to_queue\<close> answers \<open>-1\<close> (queue full) exactly when the chat's queue already holds
  \<open>MAX_QUEUE_SIZE\<close> songs, and then leaves every queue as it was; the call that brings
  the length to exactly the limit succeeds and returns the limit as position; and after
  the call no queue is longer than the limit.
\<close>

theorem add_to_queue_full:
  assumes "0 \<le> mx" and "qs = run_queue_ops mx Map.empty ops"
  shows "int (length (queue_of qs c)) \<le> mx
     \<and> (snd (add_to_queue mx qs c t) = - 1 \<longleftrightarrow> int (length (queue_of qs c)) = mx)
     \<and> (snd (add_to_queue mx qs c t) = - 1 \<longrightarrow>
          (\<forall>c'. queue_of (fst (add_to_queue mx qs c t)) c' = queue_of qs c'))
     \<and> (int (length (queue_of qs c)) + 1 = mx \<longrightarrow>
          snd (add_to_queue mx qs c t) = mx
          \<and> queue_of (fst (add_to_queue mx qs c t)) c = queue_of qs c @ [t])
     \<and> (\<forall>c'. int (length (queue_of (fst (add_to_queue mx qs c t)) c')) \<le> mx)"
proof -
  have b: "\<And>c'. int (length (queue_of qs c')) \<le> mx"
    using assms reachable_bound by simp
  have 1: "snd (add_to_queue mx qs c t) = - 1 \<longleftrightarrow> int (length (queue_of qs c)) = mx"
    using b [of c] by (auto simp: add_to_queue_result)
  have 2: "snd (add_to_queue mx qs c t) = - 1 \<longrightarrow>
          (\<forall>c'. queue_of (fst (add_to_queue mx qs c t)) c' = queue_of qs c')"
    using 1 by (simp add: add_to_queue_queue)
  have 3: "int (length (queue_of qs c)) + 1 = mx \<longrightarrow>
          snd (add_to_queue mx qs c t) = mx
          \<and> queue_of (fst (add_to_queue mx qs c t)) c = queue_of qs c @ [t]"
    by (auto simp: add_to_queue_result add_to_queue_queue)
  have 4: "\<forall>c'. int (length (queue_of (fst (add_to_queue mx qs c t)) c')) \<le> mx"
    using b by (auto simp: add_to_queue_queue)
  show ?thesis using b [of c] 1 2 3 4 by blast
qed

theorem add_to_queue_full_witness:
  "(0::int) \<le> 2
   \<and> queue_of (run_queue_ops 2 Map.empty [Add_to_queue 1 song_A, Add_to_queue 1 song_B]) 1
       = [song_A, song_B]
   \<and> snd (add_to_queue 2
        (run_queue_ops 2 Map.empty [Add_to_queue 1 song_A, Add_to_queue 1 song_B]) 1 song_C) = - 1
   \<and> queue_of (fst (add_to_queue 2
        (run_queue_ops 2 Map.empty [Add_to_queue 1 song_A, Add_to_queue 1 song_B]) 1 song_C)) 1
       = [song_A, song_B]
   \<and> snd (add_to_queue 2 (run_queue_ops 2 Map.empty [Add_to_queue 1 song_A]) 1 song_B) = 2"
  using add_to_queue_full [of 2 "run_queue_ops 2 Map.empty [Add_to_queue 1 song_A, Add_to_queue 1 song_B]"
          "[Add_to_queue 1 song_A, Add_to_queue 1 song_B]" 1 song_C]
        add_to_queue_full [of 2 "run_queue_ops 2 Map.empty [Add_to_queue 1 song_A]"
          "[Add_to_queue 1 song_A]" 1 song_B]
  by (simp add: add_to_queue_queue queue_of_empty)

text \<open>
  With a negative limit, which nothing in the configuration rules out, the empty queue
  is already refused as full, though it does not hold that many songs and is longer
  than the limit.
\<close>

theorem add_to_queue_full_counterexample:
  "queue_of Map.empty 1 = []
   \<and> snd (add_to_queue (- 1) Map.empty 1 song_A) = - 1
   \<and> int (length (queue_of Map.empty 1)) \<noteq> - 1
   \<and> \<not> int (length (queue_of Map.empty 1)) \<le> - 1"
  by (simp add: queue_of_empty add_to_queue_result)

lemma remove_first_hd:
  "fst (remove_first t q) = s # rest \<Longrightarrow> same_song s t \<Longrightarrow>
   \<exists>a b r. q = a # b # r \<and> same_song a t \<and> same_song b t"
proof (cases q)
  case Nil
  assume "fst (remove_first t q) = s # rest"
  then show ?thesis using Nil by simp
next
  case (Cons a q')
  assume h: "fst (remove_first t q) = s # rest" and m: "same_song s t"
  show ?thesis
  proof (cases "same_song a t")
    case True
    then have "q' = s # rest" using h Cons by simp
    then show ?thesis using Cons True m by blast
  next
    case False
    then have "a = s" using h Cons by (auto split: prod.splits)
    then show ?thesis using False m by simp
  qed
qed

section \<open>Removing a song and reading the current one\<close>

text \<open>
  C6. \<open>remove_from_queue\<close> removes the first song with the given title and url and
  reports whether there was one. Unless the first two songs of the chat's queue both
  carry that title and url, the current song read afterwards is not a song with that
  title and url, wherever in the queue the removed song stood.
\<close>

theorem remove_then_current:
  assumes "\<not> (\<exists>a b r. queue_of qs c = a # b # r \<and> same_song a t \<and> same_song b t)"
  shows "(snd (remove_from_queue qs c t) \<longleftrightarrow> (\<exists>x \<in> set (queue_of qs c). same_song x t))
       \<and> (\<forall>s. snd (get_current_song (fst (remove_from_queue qs c t)) c) = Some s
              \<longrightarrow> \<not> same_song s t)"
proof -
  have 1: "snd (remove_from_queue qs c t) \<longleftrightarrow> (\<exists>x \<in> set (queue_of qs c). same_song x t)"
    by (simp add: remove_from_queue_result remove_first_found)
  have 2: "\<not> same_song s t"
    if "snd (get_current_song (fst (remove_from_queue qs c t)) c) = Some s" for s
  proof -
    from that obtain rest where "fst (remove_first t (queue_of qs c)) = s # rest"
      by (auto simp: get_current_song_result remove_from_queue_queue split: list.splits)
    then show ?thesis using remove_first_hd assms by blast
  qed
  show ?thesis using 1 2 by blast
qed

theorem remove_then_current_witness:
  "\<not> (\<exists>a b r. queue_of [1 \<mapsto> [song_B, song_A, song_A]] 1 = a # b # r
          \<and> same_song a song_A \<and> same_song b song_A)
   \<and> snd (remove_from_queue [1 \<mapsto> [song_B, song_A, song_A]] 1 song_A)
   \<and> queue_of (fst (remove_from_queue [1 \<mapsto> [song_B, song_A, song_A]] 1 song_A)) 1
        = [song_B, song_A]
   \<and> snd (get_current_song (fst (remove_from_queue [1 \<mapsto> [song_B, song_A, song_A]] 1 song_A)) 1)
        = Some song_B
   \<and> \<not> same_song song_B song_A"
  using remove_then_current [of "[1 \<mapsto> [song_B, song_A, song_A]]" 1 song_A]
  by (simp add: queue_of_upd remove_from_queue_queue remove_from_queue_result
        get_current_song_result same_song_def song_A_def song_B_def)

text \<open>
  With the same song queued twice at the front, the removal takes the first copy and
  the second one is the current song afterwards.
\<close>

theorem remove_then_current_counterexample:
  "snd (remove_from_queue [1 \<mapsto> [song_A, song_A, song_B]] 1 song_A)
   \<and> snd (get_current_song (fst (remove_from_queue [1 \<mapsto> [song_A, song_A, song_B]] 1 song_A)) 1)
        = Some song_A"
  by (simp add: queue_of_upd remove_from_queue_queue remove_from_queue_result
        get_current_song_result same_song_def)

section \<open>Shuffle and move\<close>

text \<open>
  C7. \<open>shuffle_queue\<close> with \<open>preserve_current\<close> set, for every sequence of random
  draws: a queue of at most one song is left as it is and the answer is \<open>False\<close>; a
  longer queue keeps its first song at index 0, the songs behind it are the same
  multiset as before, the length is the same, and the answer is \<open>True\<close>. The queues of
  the other chats are untouched.
\<close>

theorem shuffle_preserve_current:
  "(length (queue_of qs c) \<le> 1 \<longrightarrow>
      \<not> snd (shuffle_queue rnd qs c True)
      \<and> queue_of (fst (shuffle_queue rnd qs c True)) c = queue_of qs c)
   \<and> (1 < length (queue_of qs c) \<longrightarrow>
      snd (shuffle_queue rnd qs c True)
      \<and> queue_of (fst (shuffle_queue rnd qs c True)) c ! 0 = queue_of qs c ! 0
      \<and> mset (tl (queue_of (fst (shuffle_queue rnd qs c True)) c)) = mset (tl (queue_of qs c))
      \<and> length (queue_of (fst (shuffle_queue rnd qs c True)) c) = length (queue_of qs c))
   \<and> (\<forall>c'. c' \<noteq> c \<longrightarrow> queue_of (fst (shuffle_queue rnd qs c True)) c' = queue_of qs c')"
proof -
  have "1 < length (queue_of qs c) \<Longrightarrow> hd (queue_of qs c) = queue_of qs c ! 0"
    by (cases "queue_of qs c") simp_all
  moreover have "1 < length (queue_of qs c) \<Longrightarrow>
      Suc (length (tl (queue_of qs c))) = length (queue_of qs c)"
    by (cases "queue_of qs c") simp_all
  ultimately show ?thesis
    by (simp add: shuffle_queue_queue shuffle_queue_result random_shuffle_mset
          random_shuffle_length)
qed

theorem shuffle_preserve_current_witness:
  "1 < length (queue_of [1 \<mapsto> [song_A, song_B, song_C]] 1)
   \<and> snd (shuffle_queue (\<lambda>i. 0) [1 \<mapsto> [song_A, song_B, song_C]] 1 True)
   \<and> queue_of (fst (shuffle_queue (\<lambda>i. 0) [1 \<mapsto> [song_A, song_B, song_C]] 1 True)) 1
        = [song_A, song_C, song_B]
   \<and> length (queue_of [1 \<mapsto> [song_A]] 1) \<le> 1
   \<and> \<not> snd (shuffle_queue (\<lambda>i. 0) [1 \<mapsto> [song_A]] 1 True)
   \<and> queue_of (fst (shuffle_queue (\<lambda>i. 0) [1 \<mapsto> [song_A]] 1 True)) 1 = [song_A]
   \<and> queue_of (fst (shuffle_queue (\<lambda>i. 0) [1 \<mapsto> [song_A, song_B, song_C]] 1 True)) 2 = []"
  using shuffle_preserve_current [of "[1 \<mapsto> [song_A, song_B, song_C]]" 1 "\<lambda>i. 0"]
        shuffle_preserve_current [of "[1 \<mapsto> [song_A]]" 1 "\<lambda>i. 0"]
  by (simp add: queue_of_upd queue_of_empty shuffle_queue_queue shuffle_queue_result
        random_shuffle_def)

text \<open>
  C8. If the 1-based positions \<open>a\<close> and \<open>b\<close> both lie within the chat's queue, then
  \<open>move_song\<close> from \<open>a\<close> to \<open>b\<close> succeeds and puts the song of position \<open>a\<close> at
  position \<open>b\<close>, and \<open>move_song\<close> from \<open>b\<close> to \<open>a\<close> after it succeeds and leaves every
  queue in its original order. (The same holds when \<open>a = b\<close>.)
\<close>

theorem move_song_round_trip:
  assumes "1 \<le> a" and "a \<le> int (length (queue_of qs c))"
      and "1 \<le> b" and "b \<le> int (length (queue_of qs c))"
  shows "snd (move_song qs c a b)
       \<and> queue_of (fst (move_song qs c a b)) c ! nat (b - 1) = queue_of qs c ! nat (a - 1)
       \<and> snd (move_song (fst (move_song qs c a b)) c b a)
       \<and> (\<forall>c'. queue_of (fst (move_song (fst (move_song qs c a b)) c b a)) c' = queue_of qs c')"
proof -
  let ?q = "queue_of qs c"
  let ?i = "nat (a - 1)" and ?j = "nat (b - 1)"
  let ?q1 = "list_insert (list_pop ?q ?i) ?j (?q ! ?i)"
  have i: "?i < length ?q" and j: "?j < length ?q" using assms by linarith+
  have lp: "length (list_pop ?q ?i) = length ?q - 1" using i by (rule list_pop_length)
  have jp: "?j \<le> length (list_pop ?q ?i)" using j lp by linarith
  have q1: "queue_of (fst (move_song qs c a b)) c = ?q1"
    using assms by (simp add: move_song_queue)
  have l1: "length ?q1 = length ?q" using i lp by (simp add: list_insert_length)
  have n1: "?q1 ! ?j = ?q ! ?i" using jp by (rule list_insert_nth)
  have p1: "list_pop ?q1 ?j = list_pop ?q ?i" using jp by (rule list_pop_insert)
  have restored: "list_insert (list_pop ?q1 ?j) ?i (?q1 ! ?j) = ?q"
    using i by (simp add: n1 p1 list_insert_pop)
  have r1: "snd (move_song qs c a b)" using assms by (simp add: move_song_result)
  have r2: "snd (move_song (fst (move_song qs c a b)) c b a)"
    using assms by (simp add: move_song_result q1 l1)
  have q2: "queue_of (fst (move_song (fst (move_song qs c a b)) c b a)) c' = queue_of qs c'" for c'
  proof (cases "c' = c")
    case True
    have "queue_of (fst (move_song (fst (move_song qs c a b)) c b a)) c
          = list_insert (list_pop ?q1 ?j) ?i (?q1 ! ?j)"
      using assms by (simp add: move_song_queue [of "fst (move_song qs c a b)"] q1 l1)
    then show ?thesis using restored True by simp
  next
    case False
    then show ?thesis
      by (simp add: move_song_queue [of "fst (move_song qs c a b)"] move_song_queue [of qs])
  qed
  show ?thesis using r1 r2 q1 n1 q2 by simp
qed

theorem move_song_round_trip_witness:
  "(1::int) \<le> 1 \<and> 1 \<le> int (length (queue_of [7 \<mapsto> [song_A, song_B, song_C]] 7))
   \<and> (1::int) \<le> 3 \<and> 3 \<le> int (length (queue_of [7 \<mapsto> [song_A, song_B, song_C]] 7))
   \<and> snd (move_song [7 \<mapsto> [song_A, song_B, song_C]] 7 1 3)
   \<and> queue_of (fst (move_song [7 \<mapsto> [song_A, song_B, song_C]] 7 1 3)) 7
        = [song_B, song_C, song_A]
   \<and> snd (move_song (fst (move_song [7 \<mapsto> [song_A, song_B, song_C]] 7 1 3)) 7 3 1)
   \<and> queue_of (fst (move_song (fst (move_song [7 \<mapsto> [song_A, song_B, song_C]] 7 1 3)) 7 3 1)) 7
        = [song_A, song_B, song_C]"
  using move_song_round_trip [of 1 "[7 \<mapsto> [song_A, song_B, song_C]]" 7 3]
  by (simp add: queue_of_upd move_song_queue [of "[7 \<mapsto> [song_A, song_B, song_C]]"]
        list_pop_def list_insert_def)

section \<open>The music player's states\<close>

lemma session_state_cases:
  "session_state p c =
     (if c \<notin> dom (active_streams p) then Idle
      else if paused_get p c then Paused else Playing)"
  unfolding session_state_def is_paused_def is_playing_def
  by (cases "c \<in> dom (active_streams p)"; cases "paused_get p c") simp_all


lemma stop_audio_state_other:
  "c' \<noteq> c \<Longrightarrow> session_state (fst (stop_audio p c)) c' = session_state p c'"
  by (simp add: session_state_cases stop_audio_def paused_get_def)





lemma play_audio_state_other:
  "c' \<noteq> c \<Longrightarrow>
   session_state (fst (play_audio ex p c path)) c' = session_state p c'"
  by (simp add: play_audio_def Let_def stop_audio_def session_state_cases paused_get_def)






lemma cleanup_paused:
  "session_state p c = Paused \<Longrightarrow> simulate_playback_cleanup p c = p"
  by (auto simp: simulate_playback_cleanup_def session_state_cases split: if_splits)

text \<open>The definitions that a run of the example world unfolds to.\<close>

lemmas demo_unfold =
  demo_env_def init_bot_def play_command_def play_command_try_def sending_def calling_def
  send_def demo_send_ok_def markdown_ok_def pause_command_def skip_command_def
  add_to_queue_def remove_from_queue_def get_current_song_def lookup_queue_def
  play_audio_def pause_audio_def stop_audio_def same_song_def
  default_MAX_QUEUE_SIZE_def song_A_def song_B_def song_C_def song_D_def Let_def
  paused_get_def


text \<open>
  C10. For every player state, reachable or not, and every chat: \<open>is_playing\<close> and
  \<open>is_paused\<close> are never both true; the chat is playing exactly when it has an active
  stream and its paused flag is false, paused exactly when it has an active stream and
  its paused flag is true, and neither when it has no active stream.
\<close>

theorem playing_paused_exclusive:
  "\<not> (is_playing p c \<and> is_paused p c)
   \<and> (is_playing p c \<longleftrightarrow> c \<in> dom (active_streams p) \<and> \<not> paused_get p c)
   \<and> (is_paused p c \<longleftrightarrow> c \<in> dom (active_streams p) \<and> paused_get p c)
   \<and> (c \<notin> dom (active_streams p) \<longrightarrow> \<not> is_playing p c \<and> \<not> is_paused p c)"
  by (auto simp: is_playing_def is_paused_def)

theorem playing_paused_exclusive_witness:
  "is_playing (music_player (fst (run demo_env init_bot [Play 1 [''A'']]))) 1
   \<and> \<not> is_paused (music_player (fst (run demo_env init_bot [Play 1 [''A'']]))) 1
   \<and> is_paused (music_player demo_paused_bot) 1
   \<and> \<not> is_playing (music_player demo_paused_bot) 1
   \<and> 2 \<notin> dom (active_streams (music_player demo_paused_bot))
   \<and> \<not> is_playing (music_player demo_paused_bot) 2
   \<and> \<not> is_paused (music_player demo_paused_bot) 2"
  using playing_paused_exclusive [of "music_player (fst (run demo_env init_bot [Play 1 [''A'']]))" 1]
        playing_paused_exclusive [of "music_player demo_paused_bot" 1]
        playing_paused_exclusive [of "music_player demo_paused_bot" 2]
  by (simp add: demo_paused_bot_def demo_unfold)

section \<open>The end of a song while paused\<close>

text \<open>
  The playback thread holds back the end of a song in a paused chat: when it leaves its
  waiting loop while the chat is paused, the bot is left exactly as it was.
\<close>

lemma playback_over_paused:
  "session_state (music_player b) c = Paused \<Longrightarrow> handle env b (Playback_over c) = (b, [])"
  by (simp add: cleanup_paused)


section \<open>What the handlers do to the queues, to the player and to the outside\<close>





















section \<open>An empty queue means an idle chat\<close>







section \<open>The play command\<close>














section \<open>The skip command\<close>




section \<open>Enqueue and start\<close>







end
